theory Spec2Isabelle
  imports Complex_Main "HOL-Library.Sublist"
begin

section \<open>Values shared by the scripts\<close>

text \<open>
  The sources are \<^verbatim>\<open>takeout_processor.py\<close> (class \<^verbatim>\<open>GoogleTakeoutProcessor\<close>) and
  \<^verbatim>\<open>verify_processing.py\<close> (class \<^verbatim>\<open>ProcessingVerifier\<close>). Every function below is the
  translation of the method of the same name; a leading underscore of a Python name is
  dropped, since an Isabelle name cannot start with one.
\<close>

subsection \<open>Exceptions\<close>

datatype py_error =
    AttributeError
  | ValueError
  | TypeError
  | ZeroDivisionError
  | OSError

subsection \<open>Parsed JSON\<close>

text \<open>
  What \<^verbatim>\<open>json.load\<close> returns. An object is the list of the items of the resulting dict
  (keys distinct, looked up with \<open>map_of\<close>). A float is held by the rational it denotes;
  the scripts only ever compare one with zero or truncate it.
\<close>

datatype json =
    JNull
  | JBool bool
  | JInt int
  | JFloat rat
  | JStr string
  | JArr "json list"
  | JObj "(string \<times> json) list"

text \<open>Python truthiness: \<^verbatim>\<open>bool(v)\<close>.\<close>

fun truthy :: "json \<Rightarrow> bool" where
  "truthy JNull = False"
| "truthy (JBool b) = b"
| "truthy (JInt i) = (i \<noteq> 0)"
| "truthy (JFloat r) = (r \<noteq> 0)"
| "truthy (JStr s) = (s \<noteq> [])"
| "truthy (JArr xs) = (xs \<noteq> [])"
| "truthy (JObj kvs) = (kvs \<noteq> [])"

text \<open>\<^verbatim>\<open>v != 0\<close>: only a number equal to zero (or \<^verbatim>\<open>False\<close>) compares equal to 0.\<close>

fun py_ne_zero :: "json \<Rightarrow> bool" where
  "py_ne_zero (JInt i) = (i \<noteq> 0)"
| "py_ne_zero (JFloat r) = (r \<noteq> 0)"
| "py_ne_zero (JBool b) = b"
| "py_ne_zero v = True"

text \<open>
  \<^verbatim>\<open>d.get(key, default)\<close>. Only a dict has the method: on any other value the attribute
  lookup raises.
\<close>

fun py_get :: "json \<Rightarrow> string \<Rightarrow> json \<Rightarrow> py_error + json" where
  "py_get (JObj kvs) key dflt =
     Inr (case map_of kvs key of Some v \<Rightarrow> v | None \<Rightarrow> dflt)"
| "py_get v key dflt = Inl AttributeError"

subsection \<open>Strings\<close>

text \<open>
  File names are character lists. \<^verbatim>\<open>str.lower\<close> is modelled on the letters A to Z, which
  is what it does to an ASCII name.
\<close>

definition lower_char :: "char \<Rightarrow> char" where
  "lower_char c =
     (case map_of (zip ''ABCDEFGHIJKLMNOPQRSTUVWXYZ'' ''abcdefghijklmnopqrstuvwxyz'') c of
        Some l \<Rightarrow> l
      | None \<Rightarrow> c)"

definition upper_char :: "char \<Rightarrow> char" where
  "upper_char c =
     (case map_of (zip ''abcdefghijklmnopqrstuvwxyz'' ''ABCDEFGHIJKLMNOPQRSTUVWXYZ'') c of
        Some u \<Rightarrow> u
      | None \<Rightarrow> c)"

definition str_lower :: "string \<Rightarrow> string" where
  "str_lower s = map lower_char s"

definition str_upper :: "string \<Rightarrow> string" where
  "str_upper s = map upper_char s"

text \<open>\<^verbatim>\<open>sub in s\<close> for two strings.\<close>

fun str_contains :: "string \<Rightarrow> string \<Rightarrow> bool" where
  "str_contains sub [] = (sub = [])"
| "str_contains sub (c # cs) = (prefix sub (c # cs) \<or> str_contains sub cs)"

text \<open>
  \<^verbatim>\<open>s.replace(old, '')\<close>: every occurrence of \<open>old\<close> found scanning from the left is
  dropped; an empty \<open>old\<close> leaves the string as it is.
\<close>

function str_remove :: "string \<Rightarrow> string \<Rightarrow> string" where
  "str_remove old [] = []"
| "str_remove old (c # cs) =
     (if old = [] then c # cs
      else if prefix old (c # cs) then str_remove old (drop (length old) (c # cs))
      else c # str_remove old cs)"
  by pat_completeness auto
termination
  by (relation "measure (\<lambda>(old, s). length s)") auto

subsection \<open>Paths\<close>

text \<open>
  A \<^verbatim>\<open>pathlib.Path\<close> of a media file: its directory and its final component.
  \<open>path_str\<close> is \<^verbatim>\<open>str(path)\<close>, and \<^verbatim>\<open>path.parent / other\<close> is \<open>path\<lparr>name := other\<rparr>\<close>.
\<close>

record path =
  parent :: string
  name :: string

definition path_str :: "path \<Rightarrow> string" where
  "path_str p = parent p @ ''/'' @ name p"

text \<open>
  \<^verbatim>\<open>Path.suffix\<close>: the name from its last dot on, when that dot is neither the first nor
  the last character; \<^verbatim>\<open>Path.stem\<close> is the rest; \<^verbatim>\<open>with_suffix\<close> swaps the suffix.
\<close>

definition path_suffix :: "path \<Rightarrow> string" where
  "path_suffix p =
     (let after = rev (takeWhile (\<lambda>c. c \<noteq> CHR ''.'') (rev (name p)))
      in if length after < length (name p) \<and> after \<noteq> [] \<and> Suc (length after) < length (name p)
         then CHR ''.'' # after
         else [])"

definition path_stem :: "path \<Rightarrow> string" where
  "path_stem p = take (length (name p) - length (path_suffix p)) (name p)"

definition with_suffix :: "path \<Rightarrow> string \<Rightarrow> path" where
  "with_suffix p new_suffix = p\<lparr>name := path_stem p @ new_suffix\<rparr>"

subsection \<open>The outside world\<close>

text \<open>
  Everything the scripts read from outside is a field of \<open>world\<close>: which paths exist,
  what \<^verbatim>\<open>json.load\<close> gives for a file (\<open>None\<close> when opening or parsing raises), and how
  each \<^verbatim>\<open>subprocess.run\<close> of the metadata tool ends.
\<close>

datatype run_result =
    Completed int
  | TimeoutExpired
  | RunRaised

datatype query_result =
    QueryExit int "json option"
  | QueryRaised

datatype file_type_result =
    FileTypeMetadata json
  | FileTypeCaught
  | FileTypeRaised

record world =
  path_exists :: "string \<Rightarrow> bool"
  json_load :: "string \<Rightarrow> json option"
  run_batch :: "path list \<Rightarrow> run_result"
  run_single :: "path \<Rightarrow> string \<Rightarrow> run_result"
  run_query :: "path \<Rightarrow> query_result"
  run_file_type :: "path \<Rightarrow> file_type_result"

section \<open>Locating the sidecar of a media file\<close>

text \<open>
  \<^verbatim>\<open>_is_edited_photo\<close>: the name is lower-cased first, then searched for the markers.
\<close>

definition is_edited_photo :: "path \<Rightarrow> bool" where
  "is_edited_photo media_file =
     (let filename = str_lower (name media_file)
      in list_ex (\<lambda>pattern. str_contains pattern filename)
           [''-edited'', ''-effects-edited'', ''_edited'', ''_1-edited''])"

text \<open>
  \<^verbatim>\<open>_get_original_name\<close>: the first pattern of the list that occurs in the name is
  removed from it; \<open>None\<close> when no pattern occurs.
\<close>

fun remove_first_pattern :: "string list \<Rightarrow> string \<Rightarrow> string option" where
  "remove_first_pattern [] filename = None"
| "remove_first_pattern (pattern # rest) filename =
     (if str_contains pattern filename then Some (str_remove pattern filename)
      else remove_first_pattern rest filename)"

definition get_original_name :: "path \<Rightarrow> string option" where
  "get_original_name edited_file =
     remove_first_pattern [''-EFFECTS-edited'', ''-edited'', ''_1-edited'', ''_edited'']
       (name edited_file)"

text \<open>The four sidecar names tried for a base path, in the order the source lists them.\<close>

definition sidecar_patterns :: "string \<Rightarrow> string list" where
  "sidecar_patterns base_path =
     [base_path @ ''.supplemental-metadata.json'',
      base_path @ ''.supplemental-metada.json'',
      base_path @ ''.s.json'',
      base_path @ ''.json'']"

text \<open>
  \<^verbatim>\<open>find_json_metadata\<close>: the first existing direct pattern; otherwise, for an edited
  photo with a non-empty original name, the first existing pattern of the original.
\<close>

definition find_json_metadata :: "world \<Rightarrow> path \<Rightarrow> string option" where
  "find_json_metadata w media_file =
     (case find (path_exists w) (sidecar_patterns (path_str media_file)) of
        Some json_path \<Rightarrow> Some json_path
      | None \<Rightarrow>
          if is_edited_photo media_file then
            (case get_original_name media_file of
               None \<Rightarrow> None
             | Some original_name \<Rightarrow>
                 if original_name = [] then None
                 else find (path_exists w)
                        (sidecar_patterns (path_str (media_file\<lparr>name := original_name\<rparr>))))
          else None)"

section \<open>The processor object\<close>

text \<open>
  The counters of \<^verbatim>\<open>self.stats\<close>. An entry of \<^verbatim>\<open>stats['errors']\<close> is the message
  \<^verbatim>\<open>"Batch {batch_num} completely failed: {len(batch)} files"\<close>, held by its two numbers.
\<close>

datatype error_entry = BatchCompletelyFailed nat nat

record stats_dict =
  total_files :: nat
  processed_files :: nat
  json_matched :: nat
  date_restored :: nat
  gps_restored :: nat
  extensions_fixed :: nat
  live_photos_paired :: nat
  zip_files_extracted :: nat
  errors :: "error_entry list"

text \<open>
  What the processor does to the outside, in the order it does it: a rename
  (\<^verbatim>\<open>shutil.move\<close>), a run of the metadata tool (the read-only \<^verbatim>\<open>-FileType\<close> and field
  queries; the \<^verbatim>\<open>-overwrite_original\<close> runs on a batch or on one file with its sidecar,
  each with its timeout in seconds), the copy of a list of files to the output tree or
  to the \<^verbatim>\<open>unmapped\<close> tree, and the writing of \<^verbatim>\<open>processing_report.json\<close>. Log lines and
  status callbacks are not recorded.
\<close>

datatype effect =
    MoveFile path path
  | QueryFileType path
  | WriteBatch "path list" nat
  | WriteSingle path string nat
  | QueryFields path nat
  | CopyProcessed "path list"
  | CopyUnmapped "path list"
  | WriteReport

fun modifies :: "effect \<Rightarrow> bool" where
  "modifies (QueryFileType f) = False"
| "modifies (QueryFields f t) = False"
| "modifies e = True"

record processor =
  dry_run :: bool
  stats :: stats_dict
  effects :: "effect list"

definition emit :: "effect \<Rightarrow> processor \<Rightarrow> processor" where
  "emit e self = self\<lparr>effects := effects self @ [e]\<rparr>"

definition incr_json_matched :: "processor \<Rightarrow> processor" where
  "incr_json_matched self =
     self\<lparr>stats := (stats self)\<lparr>json_matched := json_matched (stats self) + 1\<rparr>\<rparr>"

definition incr_date_restored :: "processor \<Rightarrow> processor" where
  "incr_date_restored self =
     self\<lparr>stats := (stats self)\<lparr>date_restored := date_restored (stats self) + 1\<rparr>\<rparr>"

definition incr_gps_restored :: "processor \<Rightarrow> processor" where
  "incr_gps_restored self =
     self\<lparr>stats := (stats self)\<lparr>gps_restored := gps_restored (stats self) + 1\<rparr>\<rparr>"

definition incr_extensions_fixed :: "processor \<Rightarrow> processor" where
  "incr_extensions_fixed self =
     self\<lparr>stats := (stats self)\<lparr>extensions_fixed := extensions_fixed (stats self) + 1\<rparr>\<rparr>"

definition incr_live_photos_paired :: "processor \<Rightarrow> processor" where
  "incr_live_photos_paired self =
     self\<lparr>stats := (stats self)\<lparr>live_photos_paired := live_photos_paired (stats self) + 1\<rparr>\<rparr>"

definition append_error :: "error_entry \<Rightarrow> processor \<Rightarrow> processor" where
  "append_error msg self =
     self\<lparr>stats := (stats self)\<lparr>errors := errors (stats self) @ [msg]\<rparr>\<rparr>"

text \<open>Sequencing of steps that may raise: the first exception ends the chain.\<close>

definition and_then :: "py_error + 'a \<Rightarrow> ('a \<Rightarrow> py_error + 'b) \<Rightarrow> py_error + 'b" where
  "and_then r k = (case r of Inl e \<Rightarrow> Inl e | Inr v \<Rightarrow> k v)"

text \<open>
  The processor as \<^verbatim>\<open>__init__\<close> leaves it: the flag it was given, every counter at zero
  and nothing done yet.
\<close>

definition initial_stats :: stats_dict where
  "initial_stats =
     \<lparr>total_files = 0, processed_files = 0, json_matched = 0, date_restored = 0,
      gps_restored = 0, extensions_fixed = 0, live_photos_paired = 0,
      zip_files_extracted = 0, errors = []\<rparr>"

definition new_processor :: "bool \<Rightarrow> processor" where
  "new_processor dry = \<lparr>dry_run = dry, stats = initial_stats, effects = []\<rparr>"

section \<open>Extension fixing and Live Photos\<close>

definition mismatches :: "(string \<times> string list) list" where
  "mismatches =
     [(''.jpg'', [''MP4'', ''PNG'']),
      (''.png'', [''JPEG'']),
      (''.heic'', [''MOV''])]"

text \<open>
  \<^verbatim>\<open>detect_file_type_mismatch\<close>. The tool is asked for the file type. A
  \<^verbatim>\<open>CalledProcessError\<close>, \<^verbatim>\<open>JSONDecodeError\<close> or \<^verbatim>\<open>IndexError\<close> is caught and gives
  \<open>None\<close>; any other exception leaves the function, as does the \<^verbatim>\<open>.get\<close> or \<^verbatim>\<open>.upper\<close>
  of a value that has no such method.
\<close>

definition detect_file_type_mismatch ::
    "world \<Rightarrow> processor \<Rightarrow> path \<Rightarrow> (py_error + string option) \<times> processor" where
  "detect_file_type_mismatch w self file_path =
     (let self1 = emit (QueryFileType file_path) self
      in case run_file_type w file_path of
           FileTypeCaught \<Rightarrow> (Inr None, self1)
         | FileTypeRaised \<Rightarrow> (Inl OSError, self1)
         | FileTypeMetadata metadata \<Rightarrow>
             (and_then (py_get metadata ''FileType'' (JStr []))
                (\<lambda>file_type.
                   case file_type of
                     JStr s \<Rightarrow>
                       (let actual_type = str_upper s;
                            extension = str_lower (path_suffix file_path)
                        in case map_of mismatches extension of
                             Some types \<Rightarrow>
                               if actual_type \<in> set types then Inr (Some (str_lower actual_type))
                               else Inr None
                           | None \<Rightarrow> Inr None)
                   | _ \<Rightarrow> Inl AttributeError),
              self1))"

text \<open>
  \<^verbatim>\<open>fix_file_extensions\<close>: the loop over the files, with the list \<open>corrected_files\<close> built
  so far. The rename is guarded by \<^verbatim>\<open>if not self.dry_run\<close>; the counter and the returned
  path are not.
\<close>

fun fix_file_extensions_loop ::
    "world \<Rightarrow> path list \<Rightarrow> path list \<Rightarrow> processor \<Rightarrow> (py_error + path list) \<times> processor" where
  "fix_file_extensions_loop w [] corrected_files self = (Inr corrected_files, self)"
| "fix_file_extensions_loop w (file_path # rest) corrected_files self =
     (case detect_file_type_mismatch w self file_path of
        (Inl e, self1) \<Rightarrow> (Inl e, self1)
      | (Inr None, self1) \<Rightarrow>
          fix_file_extensions_loop w rest (corrected_files @ [file_path]) self1
      | (Inr (Some correct_type), self1) \<Rightarrow>
          if correct_type = [] then
            fix_file_extensions_loop w rest (corrected_files @ [file_path]) self1
          else
            (let new_path = with_suffix file_path (''.'' @ correct_type);
                 self2 = (if \<not> dry_run self1 then emit (MoveFile file_path new_path) self1
                          else self1);
                 self3 = incr_extensions_fixed self2
             in fix_file_extensions_loop w rest (corrected_files @ [new_path]) self3))"

definition fix_file_extensions ::
    "world \<Rightarrow> processor \<Rightarrow> path list \<Rightarrow> (py_error + path list) \<times> processor" where
  "fix_file_extensions w self media_files = fix_file_extensions_loop w media_files [] self"

text \<open>
  \<^verbatim>\<open>identify_live_photos\<close>: a \<^verbatim>\<open>.heic\<close> file is paired with the first existing of its two
  video candidates, and the pair is counted. The pipeline does not use the returned
  dict, so only the counter is kept.
\<close>

definition has_live_video :: "world \<Rightarrow> path \<Rightarrow> bool" where
  "has_live_video w file_path =
     (str_lower (path_suffix file_path) = ''.heic''
      \<and> list_ex (path_exists w)
          [path_str (file_path\<lparr>name := path_stem file_path @ ''(1).heic''\<rparr>),
           path_str (file_path\<lparr>name := path_stem file_path @ ''.mov''\<rparr>)])"

fun identify_live_photos :: "world \<Rightarrow> processor \<Rightarrow> path list \<Rightarrow> processor" where
  "identify_live_photos w self [] = self"
| "identify_live_photos w self (file_path # rest) =
     identify_live_photos w
       (if has_live_video w file_path then incr_live_photos_paired self else self) rest"

section \<open>Verification of one file\<close>

text \<open>\<^verbatim>\<open>_load_json_safely\<close>: the parsed file, or the empty dict when loading raises.\<close>

definition load_json_safely :: "world \<Rightarrow> string \<Rightarrow> json" where
  "load_json_safely w json_path =
     (case json_load w json_path of Some data \<Rightarrow> data | None \<Rightarrow> JObj [])"

text \<open>
  The three tests of \<^verbatim>\<open>_verify_file_processing\<close>. Each reads the sidecar value with the
  chained \<^verbatim>\<open>.get\<close> calls of the source and, only when that value passes its test
  (\<^verbatim>\<open>and\<close> evaluates its right side last), reads the re-read field.
\<close>

definition date_check :: "json \<Rightarrow> json \<Rightarrow> py_error + bool" where
  "date_check json_data exif_data =
     and_then (py_get json_data ''photoTakenTime'' (JObj []))
       (\<lambda>taken. and_then (py_get taken ''timestamp'' JNull)
          (\<lambda>original_timestamp.
             if truthy original_timestamp
             then and_then (py_get exif_data ''DateTimeOriginal'' JNull) (\<lambda>v. Inr (truthy v))
             else Inr False))"

definition gps_check :: "json \<Rightarrow> json \<Rightarrow> py_error + bool" where
  "gps_check json_data exif_data =
     and_then (py_get json_data ''geoData'' (JObj []))
       (\<lambda>geo. and_then (py_get geo ''latitude'' (JInt 0))
          (\<lambda>original_lat.
             if py_ne_zero original_lat
             then and_then (py_get exif_data ''GPSLatitude'' JNull) (\<lambda>v. Inr (truthy v))
             else Inr False))"

definition desc_check :: "json \<Rightarrow> json \<Rightarrow> py_error + bool" where
  "desc_check json_data exif_data =
     and_then (py_get json_data ''description'' (JStr []))
       (\<lambda>original_desc.
          if truthy original_desc
          then and_then (py_get exif_data ''Description'' JNull) (\<lambda>v. Inr (truthy v))
          else Inr False)"

text \<open>
  The tail of \<^verbatim>\<open>_verify_file_processing\<close>, from \<^verbatim>\<open>metadata_restored = False\<close> on. An
  exception in any of the three tests is caught by the function's \<^verbatim>\<open>except Exception\<close>:
  the answer is \<open>False\<close> and the counters keep what was added before.
\<close>

definition check_restored :: "json \<Rightarrow> json \<Rightarrow> processor \<Rightarrow> bool \<times> processor" where
  "check_restored json_data exif_data self =
     (case date_check json_data exif_data of
        Inl e \<Rightarrow> (False, self)
      | Inr date_ok \<Rightarrow>
          (let self1 = (if date_ok then incr_date_restored self else self)
           in case gps_check json_data exif_data of
                Inl e \<Rightarrow> (False, self1)
              | Inr gps_ok \<Rightarrow>
                  (let self2 = (if gps_ok then incr_gps_restored self1 else self1)
                   in case desc_check json_data exif_data of
                        Inl e \<Rightarrow> (False, self2)
                      | Inr desc_ok \<Rightarrow> (date_ok \<or> gps_ok \<or> desc_ok, self2))))"

definition verify_file_processing :: "world \<Rightarrow> processor \<Rightarrow> path \<Rightarrow> bool \<times> processor" where
  "verify_file_processing w self file_path =
     (case find_json_metadata w file_path of
        None \<Rightarrow> (False, self)
      | Some json_file \<Rightarrow>
          (let self1 = incr_json_matched self;
               json_data = load_json_safely w json_file
           in if \<not> truthy json_data then (False, self1)
              else
                (let self2 = emit (QueryFields file_path 10) self1
                 in case run_query w file_path of
                      QueryRaised \<Rightarrow> (False, self2)
                    | QueryExit returncode out \<Rightarrow>
                        if returncode \<noteq> 0 then (False, self2)
                        else (case out of
                                None \<Rightarrow> (False, self2)
                              | Some exif_data \<Rightarrow> check_restored json_data exif_data self2))))"

section \<open>Batches\<close>

text \<open>
  The result of a batch is the triple \<^verbatim>\<open>(success, unmapped, processed)\<close> of the source.
\<close>

type_synonym batch_result = "nat \<times> path list \<times> path list"

text \<open>
  The loop of \<^verbatim>\<open>_process_batch_with_verification\<close> after a batch run that returned 0.
\<close>

fun verify_batch ::
    "world \<Rightarrow> path list \<Rightarrow> batch_result \<Rightarrow> processor \<Rightarrow> batch_result \<times> processor" where
  "verify_batch w [] acc self = (acc, self)"
| "verify_batch w (file_path # rest) (batch_success, batch_unmapped, batch_processed) self =
     (case verify_file_processing w self file_path of
        (True, self1) \<Rightarrow>
          verify_batch w rest
            (batch_success + 1, batch_unmapped, batch_processed @ [file_path]) self1
      | (False, self1) \<Rightarrow>
          (case find_json_metadata w file_path of
             None \<Rightarrow>
               verify_batch w rest
                 (batch_success, batch_unmapped @ [file_path], batch_processed) self1
           | Some json_file \<Rightarrow>
               verify_batch w rest (batch_success, batch_unmapped, batch_processed) self1))"

text \<open>
  The loop of \<^verbatim>\<open>_process_files_individually\<close>. A file with no sidecar is appended to the
  unmapped list and the loop continues with the next file; a run that times out or
  raises is caught per file.
\<close>

fun individual_loop ::
    "world \<Rightarrow> path list \<Rightarrow> batch_result \<Rightarrow> processor \<Rightarrow> batch_result \<times> processor" where
  "individual_loop w [] acc self = (acc, self)"
| "individual_loop w (file_path # rest)
       (individual_success, individual_unmapped, individual_processed) self =
     (case find_json_metadata w file_path of
        None \<Rightarrow>
          individual_loop w rest
            (individual_success, individual_unmapped @ [file_path], individual_processed) self
      | Some json_file \<Rightarrow>
          (let self1 = emit (WriteSingle file_path json_file 30) self
           in case run_single w file_path json_file of
                Completed returncode \<Rightarrow>
                  if returncode = 0 then
                    (case verify_file_processing w self1 file_path of
                       (True, self2) \<Rightarrow>
                         individual_loop w rest
                           (individual_success + 1, individual_unmapped,
                            individual_processed @ [file_path]) self2
                     | (False, self2) \<Rightarrow>
                         individual_loop w rest
                           (individual_success, individual_unmapped, individual_processed) self2)
                  else
                    individual_loop w rest
                      (individual_success, individual_unmapped, individual_processed) self1
              | TimeoutExpired \<Rightarrow>
                  individual_loop w rest
                    (individual_success, individual_unmapped, individual_processed) self1
              | RunRaised \<Rightarrow>
                  individual_loop w rest
                    (individual_success, individual_unmapped, individual_processed) self1))"

definition process_files_individually ::
    "world \<Rightarrow> processor \<Rightarrow> path list \<Rightarrow> nat \<Rightarrow> batch_result \<times> processor" where
  "process_files_individually w self batch batch_num =
     (case individual_loop w batch (0, [], []) self of
        ((individual_success, individual_unmapped, individual_processed), self1) \<Rightarrow>
          ((individual_success, individual_unmapped, individual_processed),
           if individual_success > 0 then self1
           else append_error (BatchCompletelyFailed batch_num (length batch)) self1))"

definition process_batch_with_verification ::
    "world \<Rightarrow> processor \<Rightarrow> path list \<Rightarrow> nat \<Rightarrow> batch_result \<times> processor" where
  "process_batch_with_verification w self batch batch_num =
     (let self1 = emit (WriteBatch batch 300) self
      in case run_batch w batch of
           Completed returncode \<Rightarrow>
             if returncode = 0 then verify_batch w batch (0, [], []) self1
             else process_files_individually w self1 batch batch_num
         | TimeoutExpired \<Rightarrow> process_files_individually w self1 batch batch_num
         | RunRaised \<Rightarrow> process_files_individually w self1 batch batch_num)"

section \<open>The run over all files\<close>

text \<open>
  The dry-run branch of \<^verbatim>\<open>process_with_exiftool\<close> for one file: the two lists are
  \<^verbatim>\<open>(unmapped_files, successfully_processed_files)\<close>. The chained \<^verbatim>\<open>.get\<close> calls are not
  inside a \<^verbatim>\<open>try\<close> here, so an exception leaves the method.
\<close>

definition simulate_file ::
    "world \<Rightarrow> path \<Rightarrow> path list \<times> path list \<Rightarrow> processor
      \<Rightarrow> (py_error + path list \<times> path list) \<times> processor" where
  "simulate_file w file_path pair self =
     (case find_json_metadata w file_path of
        None \<Rightarrow> (Inr (fst pair @ [file_path], snd pair), self)
      | Some json_file \<Rightarrow>
          (let self1 = incr_json_matched self;
               json_data = load_json_safely w json_file
           in case and_then (py_get json_data ''photoTakenTime'' (JObj []))
                     (\<lambda>taken. py_get taken ''timestamp'' JNull) of
                Inl e \<Rightarrow> (Inl e, self1)
              | Inr timestamp \<Rightarrow>
                  (let self2 = (if truthy timestamp then incr_date_restored self1 else self1)
                   in case and_then (py_get json_data ''geoData'' (JObj []))
                             (\<lambda>geo. py_get geo ''latitude'' (JInt 0)) of
                        Inl e \<Rightarrow> (Inl e, self2)
                      | Inr latitude \<Rightarrow>
                          (Inr (fst pair, snd pair @ [file_path]),
                           if py_ne_zero latitude then incr_gps_restored self2 else self2))))"

fun simulate_batch ::
    "world \<Rightarrow> path list \<Rightarrow> path list \<times> path list \<Rightarrow> processor
      \<Rightarrow> (py_error + path list \<times> path list) \<times> processor" where
  "simulate_batch w [] pair self = (Inr pair, self)"
| "simulate_batch w (file_path # rest) pair self =
     (case simulate_file w file_path pair self of
        (Inl e, self1) \<Rightarrow> (Inl e, self1)
      | (Inr pair1, self1) \<Rightarrow> simulate_batch w rest pair1 self1)"

text \<open>\<^verbatim>\<open>media_files[start_idx:end_idx]\<close> for the batch numbered \<open>batch_num\<close> from 0.\<close>

definition batch_slice :: "path list \<Rightarrow> nat \<Rightarrow> nat \<Rightarrow> path list" where
  "batch_slice media_files batch_size batch_num =
     (let start_idx = batch_num * batch_size;
          end_idx = min (start_idx + batch_size) (length media_files)
      in take (end_idx - start_idx) (drop start_idx media_files))"

text \<open>
  The body of the \<^verbatim>\<open>for batch_num in range(total_batches)\<close> loop, over the batch numbers
  still to do; the accumulator is \<^verbatim>\<open>(success_count, unmapped_files,
  successfully_processed_files)\<close>.
\<close>

fun run_batches ::
    "world \<Rightarrow> path list \<Rightarrow> nat \<Rightarrow> nat list \<Rightarrow> batch_result \<Rightarrow> processor
      \<Rightarrow> (py_error + batch_result) \<times> processor" where
  "run_batches w media_files batch_size [] acc self = (Inr acc, self)"
| "run_batches w media_files batch_size (batch_num # rest)
       (success_count, unmapped_files, successfully_processed_files) self =
     (let batch = batch_slice media_files batch_size batch_num
      in if dry_run self then
           (case simulate_batch w batch (unmapped_files, successfully_processed_files) self of
              (Inl e, self1) \<Rightarrow> (Inl e, self1)
            | (Inr (unmapped1, processed1), self1) \<Rightarrow>
                run_batches w media_files batch_size rest
                  (success_count + length batch, unmapped1, processed1) self1)
         else
           (case process_batch_with_verification w self batch (batch_num + 1) of
              ((batch_success, batch_unmapped, batch_processed), self1) \<Rightarrow>
                run_batches w media_files batch_size rest
                  (success_count + batch_success, unmapped_files @ batch_unmapped,
                   successfully_processed_files @ batch_processed) self1))"

text \<open>
  \<^verbatim>\<open>_copy_processed_files_to_output\<close> and \<^verbatim>\<open>_handle_unmapped_files\<close> copy each file of
  their list below the output directory, respectively below its \<^verbatim>\<open>unmapped\<close>
  subdirectory; a copy that raises is logged and skipped. They are recorded as one
  effect carrying the list they were given.
\<close>

definition copy_processed_files_to_output :: "processor \<Rightarrow> path list \<Rightarrow> processor" where
  "copy_processed_files_to_output self processed_files_list =
     (if processed_files_list = [] then self else emit (CopyProcessed processed_files_list) self)"

definition handle_unmapped_files :: "processor \<Rightarrow> path list \<Rightarrow> processor" where
  "handle_unmapped_files self unmapped_files =
     (if unmapped_files = [] then self else emit (CopyUnmapped unmapped_files) self)"

text \<open>
  \<^verbatim>\<open>process_with_exiftool\<close>. The batch size is a natural number; with 0 the computation of
  \<^verbatim>\<open>total_batches\<close> divides by zero.
\<close>

definition process_with_exiftool ::
    "world \<Rightarrow> processor \<Rightarrow> path list \<Rightarrow> nat \<Rightarrow> (py_error + bool) \<times> processor" where
  "process_with_exiftool w self media_files batch_size =
     (if batch_size = 0 then (Inl ZeroDivisionError, self)
      else
        (let total_batches = (length media_files + batch_size - 1) div batch_size
         in case run_batches w media_files batch_size [0..<total_batches] (0, [], []) self of
              (Inl e, self1) \<Rightarrow> (Inl e, self1)
            | (Inr (success_count, unmapped_files, successfully_processed_files), self1) \<Rightarrow>
                (let self2 = (if successfully_processed_files \<noteq> [] \<and> \<not> dry_run self1
                              then copy_processed_files_to_output self1 successfully_processed_files
                              else self1);
                     self3 = (if unmapped_files \<noteq> [] \<and> \<not> dry_run self2
                              then handle_unmapped_files self2 unmapped_files
                              else self2)
                 in (Inr (success_count > 0),
                     self3\<lparr>stats := (stats self3)\<lparr>processed_files := success_count\<rparr>\<rparr>))))"

section \<open>The report and the pipeline\<close>

text \<open>
  \<^verbatim>\<open>generate_report\<close>. The summary line is held by its two numbers, and the success rate
  by the number \<^verbatim>\<open>(processed_files / max(1, total_files)) * 100\<close> that the source then
  prints with one decimal.
\<close>

record report =
  processing_stats :: stats_dict
  summary :: "nat \<times> nat"
  success_rate :: rat

definition generate_report :: "processor \<Rightarrow> report \<times> processor" where
  "generate_report self =
     (let report =
            \<lparr>processing_stats = stats self,
             summary = (processed_files (stats self), total_files (stats self)),
             success_rate =
               (of_nat (processed_files (stats self)) / of_nat (max 1 (total_files (stats self))))
                 * 100\<rparr>
      in (report, if \<not> dry_run self then emit WriteReport self else self))"

text \<open>
  \<^verbatim>\<open>process\<close> from the point where the media files have been discovered (phases 3 to 6;
  extraction and the directory scan before it supply \<open>all_media_files\<close>). An exception
  of any phase is caught and the answer is \<open>False\<close>.
\<close>

definition process_media_files :: "world \<Rightarrow> processor \<Rightarrow> path list \<Rightarrow> bool \<times> processor" where
  "process_media_files w self all_media_files =
     (let self1 = self\<lparr>stats := (stats self)\<lparr>total_files := length all_media_files\<rparr>\<rparr>
      in case fix_file_extensions w self1 all_media_files of
           (Inl e, self2) \<Rightarrow> (False, self2)
         | (Inr corrected_files, self2) \<Rightarrow>
             (let self3 = identify_live_photos w self2 corrected_files
              in case process_with_exiftool w self3 corrected_files 50 of
                   (Inl e, self4) \<Rightarrow> (False, self4)
                 | (Inr ok, self4) \<Rightarrow> (True, snd (generate_report self4))))"

section \<open>Timestamp accuracy in the verification script\<close>

text \<open>
  \<^verbatim>\<open>int(v)\<close> on a parsed JSON value. A string is read as an optional sign followed by
  decimal digits (the surrounding blanks and the underscores that Python also accepts
  are left out); a float is truncated towards zero.
\<close>

definition digit_value :: "char \<Rightarrow> int option" where
  "digit_value c = map_of (zip ''0123456789'' [0, 1, 2, 3, 4, 5, 6, 7, 8, 9]) c"

fun digits_value :: "string \<Rightarrow> int \<Rightarrow> int option" where
  "digits_value [] acc = Some acc"
| "digits_value (c # cs) acc =
     (case digit_value c of None \<Rightarrow> None | Some d \<Rightarrow> digits_value cs (10 * acc + d))"

definition int_of_string :: "string \<Rightarrow> py_error + int" where
  "int_of_string s =
     (let body = (if s \<noteq> [] \<and> (hd s = CHR ''-'' \<or> hd s = CHR ''+'') then tl s else s)
      in if body = [] then Inl ValueError
         else (case digits_value body 0 of
                 None \<Rightarrow> Inl ValueError
               | Some n \<Rightarrow> Inr (if s \<noteq> [] \<and> hd s = CHR ''-'' then - n else n)))"

fun py_int :: "json \<Rightarrow> py_error + int" where
  "py_int (JInt i) = Inr i"
| "py_int (JBool b) = Inr (if b then 1 else 0)"
| "py_int (JFloat r) = Inr (if 0 \<le> r then \<lfloor>r\<rfloor> else \<lceil>r\<rceil>)"
| "py_int (JStr s) = int_of_string s"
| "py_int v = Inl TypeError"

text \<open>
  The standard library's answers. A naive \<^verbatim>\<open>datetime\<close> is held by its distance in seconds
  from 1970-01-01 00:00:00 on its own clock, so \<^verbatim>\<open>(a - b).total_seconds()\<close> is a
  subtraction. \<open>local_offset\<close> is how far local time is ahead of UTC at an instant;
  \<open>strptime\<close> parses with the format \<^verbatim>\<open>"%Y:%m:%d %H:%M:%S"\<close> and is \<open>None\<close> where Python
  raises \<^verbatim>\<open>ValueError\<close>.
\<close>

record datetime_lib =
  local_offset :: "int \<Rightarrow> int"
  strptime :: "string \<Rightarrow> int option"

text \<open>
  The module starts with \<^verbatim>\<open>from datetime import datetime\<close>, so in it the name
  \<^verbatim>\<open>datetime\<close> is the class, and the class has no attribute \<^verbatim>\<open>timezone\<close> (that is an
  attribute of the module). The expression \<^verbatim>\<open>datetime.timezone.utc\<close> therefore raises.
\<close>

definition datetime_timezone_utc :: "py_error + unit" where
  "datetime_timezone_utc = Inl AttributeError"

text \<open>
  The inner \<^verbatim>\<open>try\<close> of \<^verbatim>\<open>verify_timestamp_accuracy\<close>: the embedded date is parsed as it
  is and, after a \<^verbatim>\<open>ValueError\<close>, once more cut at its first dot.
\<close>

definition parse_embedded :: "datetime_lib \<Rightarrow> json \<Rightarrow> py_error + int" where
  "parse_embedded lib embedded_date =
     (case embedded_date of
        JStr s \<Rightarrow>
          (case strptime lib s of
             Some dt \<Rightarrow> Inr dt
           | None \<Rightarrow>
               (case strptime lib (takeWhile (\<lambda>c. c \<noteq> CHR ''.'') s) of
                  Some dt \<Rightarrow> Inr dt
                | None \<Rightarrow> Inl ValueError))
      | _ \<Rightarrow> Inl TypeError)"

record accuracy_issue =
  issue_file :: string
  original_utc :: int
  original_local :: int
  embedded :: int
  utc_diff :: int
  local_diff :: int

text \<open>
  The body of the \<^verbatim>\<open>try\<close> of \<^verbatim>\<open>verify_timestamp_accuracy\<close>: the answer and the issue to
  record, if any. The arguments of \<^verbatim>\<open>datetime.fromtimestamp(int(original_timestamp),
  datetime.timezone.utc)\<close> are evaluated from left to right.
\<close>

definition accuracy_try_body ::
    "datetime_lib \<Rightarrow> json \<Rightarrow> json \<Rightarrow> string \<Rightarrow> py_error + bool \<times> accuracy_issue option" where
  "accuracy_try_body lib json_data exif_data file_name =
     and_then (py_get json_data ''photoTakenTime'' (JObj []))
       (\<lambda>taken. and_then (py_get taken ''timestamp'' JNull)
       (\<lambda>original_timestamp. and_then (py_get exif_data ''DateTimeOriginal'' JNull)
       (\<lambda>embedded_date.
          if truthy original_timestamp \<and> truthy embedded_date then
            and_then (py_int original_timestamp)
              (\<lambda>seconds. and_then datetime_timezone_utc
              (\<lambda>utc. and_then (py_int original_timestamp)
              (\<lambda>seconds_again. and_then (parse_embedded lib embedded_date)
              (\<lambda>embedded_dt.
                 (let original_utc_dt = seconds;
                      original_local_dt = seconds_again + local_offset lib seconds_again;
                      utc_diff = \<bar>original_utc_dt - embedded_dt\<bar>;
                      local_diff = \<bar>original_local_dt - embedded_dt\<bar>;
                      time_diff = min utc_diff local_diff
                  in if time_diff > 21600 then
                       Inr (False,
                            Some \<lparr>issue_file = file_name,
                                  original_utc = original_utc_dt,
                                  original_local = original_local_dt,
                                  embedded = embedded_dt,
                                  utc_diff = utc_diff,
                                  local_diff = local_diff\<rparr>)
                     else Inr (True, None))))))
          else Inr (False, None))))"

text \<open>
  \<^verbatim>\<open>verify_timestamp_accuracy\<close>, with the list \<^verbatim>\<open>timestamp_accuracy_issues\<close> passed in and
  returned. The outer \<^verbatim>\<open>except Exception\<close> turns every exception into \<open>False\<close>.
\<close>

definition verify_timestamp_accuracy ::
    "datetime_lib \<Rightarrow> json \<Rightarrow> json \<Rightarrow> string \<Rightarrow> accuracy_issue list
      \<Rightarrow> bool \<times> accuracy_issue list" where
  "verify_timestamp_accuracy lib json_data exif_data file_name issues =
     (case accuracy_try_body lib json_data exif_data file_name of
        Inl e \<Rightarrow> (False, issues)
      | Inr (answer, None) \<Rightarrow> (answer, issues)
      | Inr (answer, Some issue) \<Rightarrow> (answer, issues @ [issue]))"

section \<open>Notions used in the statements\<close>

subsection \<open>The verification rule in the words of the specification\<close>

text \<open>
  The rule is stated over the sidecar record and the fields read back from the file. A
  value is present when its key is there and the value is not empty (Python's truth
  test); the latitude additionally counts only when it is not zero. A key that is
  missing, at either level, gives \<open>None\<close>, and \<open>None\<close> is never present.
\<close>

definition spec_present :: "json option \<Rightarrow> bool" where
  "spec_present v = (case v of None \<Rightarrow> False | Some x \<Rightarrow> truthy x)"







subsection \<open>Observations on a run\<close>

text \<open>
  \<open>writes\<close> keeps of the trace what changes something outside the process;
  \<open>same_setup\<close> says that a step left the dry-run flag and the number of discovered
  files alone.
\<close>

definition writes :: "processor \<Rightarrow> effect list" where
  "writes self = filter modifies (effects self)"

definition same_setup :: "processor \<Rightarrow> processor \<Rightarrow> bool" where
  "same_setup s s' \<longleftrightarrow>
     dry_run s' = dry_run s \<and> total_files (stats s') = total_files (stats s)"

text \<open>The individual tool run that the fallback issues for a file, if it issues one.\<close>

definition single_write :: "world \<Rightarrow> path \<Rightarrow> effect option" where
  "single_write w file_path =
     map_option (\<lambda>json_file. WriteSingle file_path json_file 30) (find_json_metadata w file_path)"

text \<open>
  A file counts in individual mode when it has a sidecar, its own tool run returns 0 and
  it passes verification; a file of a batch counts by verification alone when the batch
  run returned 0, and as in individual mode otherwise.
\<close>

definition individually_ok :: "world \<Rightarrow> processor \<Rightarrow> path \<Rightarrow> bool" where
  "individually_ok w self file_path =
     (case find_json_metadata w file_path of
        None \<Rightarrow> False
      | Some json_file \<Rightarrow>
          run_single w file_path json_file = Completed 0
          \<and> fst (verify_file_processing w self file_path))"

definition counted :: "world \<Rightarrow> processor \<Rightarrow> path list \<Rightarrow> path \<Rightarrow> bool" where
  "counted w self batch file_path =
     (if run_batch w batch = Completed 0 then fst (verify_file_processing w self file_path)
      else individually_ok w self file_path)"

definition batches_of :: "path list \<Rightarrow> nat \<Rightarrow> path list list" where
  "batches_of media_files batch_size =
     map (batch_slice media_files batch_size)
       [0..<(length media_files + batch_size - 1) div batch_size]"

definition verified_count :: "world \<Rightarrow> processor \<Rightarrow> path list \<Rightarrow> nat \<Rightarrow> nat" where
  "verified_count w self media_files batch_size =
     sum_list (map (\<lambda>batch. length (filter (counted w self batch) batch))
       (batches_of media_files batch_size))"

text \<open>
  The modifying part of the trace of one batch: the batch run and, when it did not
  return 0, the individual runs; and the copies that end a run, each left out when its
  list is empty.
\<close>

definition batch_writes :: "world \<Rightarrow> path list \<Rightarrow> effect list" where
  "batch_writes w batch =
     WriteBatch batch 300
       # (if run_batch w batch = Completed 0 then [] else List.map_filter (single_write w) batch)"

definition copy_events :: "path list \<Rightarrow> path list \<Rightarrow> effect list" where
  "copy_events processed unmapped =
     (if processed = [] then [] else [CopyProcessed processed])
       @ (if unmapped = [] then [] else [CopyUnmapped unmapped])"

section \<open>Example inputs\<close>

text \<open>A world in which nothing exists and every tool call succeeds without output.\<close>

definition empty_world :: world where
  "empty_world =
     \<lparr>path_exists = (\<lambda>p. False),
      json_load = (\<lambda>p. None),
      run_batch = (\<lambda>fs. Completed 0),
      run_single = (\<lambda>f j. Completed 0),
      run_query = (\<lambda>f. QueryExit 0 None),
      run_file_type = (\<lambda>f. FileTypeCaught)\<rparr>"

definition album :: string where
  "album = ''/Takeout/Google Photos/Trip''"



definition special_case_edited :: path where
  "special_case_edited = \<lparr>parent = album, name = ''IMG_20180804_134812_1-edited.jpg''\<rparr>"

definition upper_case_edited :: path where
  "upper_case_edited = \<lparr>parent = album, name = ''IMG_001-EDITED.jpg''\<rparr>"

definition photo :: path where
  "photo = \<lparr>parent = album, name = ''photo.jpg''\<rparr>"

definition photo_sidecar :: string where
  "photo_sidecar = album @ ''/photo.jpg.supplemental-metadata.json''"


definition dated_photo :: path where
  "dated_photo = \<lparr>parent = album, name = ''IMG_20210619_125530.jpg''\<rparr>"

text \<open>The sample sidecar of the test suite, and what the tool reads back from a file.\<close>

definition sample_metadata :: json where
  "sample_metadata =
     JObj [(''title'', JStr ''Test Photo''),
           (''description'', JStr ''Test description''),
           (''photoTakenTime'', JObj [(''timestamp'', JStr ''1693584000'')]),
           (''geoData'', JObj [(''latitude'', JFloat (377749 / 10000)),
                               (''longitude'', JFloat (- 1224194 / 10000)),
                               (''altitude'', JFloat 10)]),
           (''tags'', JArr [JStr ''vacation'', JStr ''family''])]"

definition restored_fields :: json where
  "restored_fields =
     JObj [(''SourceFile'', JStr ''photo.jpg''),
           (''DateTimeOriginal'', JStr ''2023:09:01 16:00:00''),
           (''GPSLatitude'', JStr ''37 deg 46 min N'')]"


text \<open>
  \<open>photo\<close> has the sample sidecar and \<open>other_photo\<close> has none. In \<open>world_restored\<close> the
  fields are in the file afterwards; in \<open>world_mismatch\<close> the tool reports success and
  the fields are not there; in \<open>world_batch_timeout\<close> the batch run times out; in
  \<open>world_batch_fails\<close> there are no sidecars and the batch run returns 1; in
  \<open>world_wrong_extension\<close> the file turns out to be a PNG.
\<close>

definition world_restored :: world where
  "world_restored =
     empty_world\<lparr>path_exists := (\<lambda>p. p = photo_sidecar),
                 json_load := (\<lambda>p. if p = photo_sidecar then Some sample_metadata else None),
                 run_query := (\<lambda>f. QueryExit 0 (Some restored_fields))\<rparr>"



definition world_batch_fails :: world where
  "world_batch_fails = empty_world\<lparr>run_batch := (\<lambda>fs. Completed 1)\<rparr>"

definition world_wrong_extension :: world where
  "world_wrong_extension =
     world_restored\<lparr>run_file_type :=
       (\<lambda>f. FileTypeMetadata (JObj [(''SourceFile'', JStr ''photo.jpg''),
                                     (''FileType'', JStr ''PNG'')]))\<rparr>"

text \<open>
  A machine on UTC, whose \<^verbatim>\<open>strptime\<close> is given for the one date used below:
  1693584000 is 2023-09-01 16:00:00 UTC.
\<close>

definition utc_lib :: datetime_lib where
  "utc_lib =
     \<lparr>local_offset = (\<lambda>t. 0),
      strptime = (\<lambda>s. if s = ''2023:09:01 16:00:00'' then Some 1693584000 else None)\<rparr>"

section \<open>Sidecar lookup\<close>

lemma str_contains_sublist: "str_contains sub s \<longleftrightarrow> sublist sub s"
  by (induction s) (auto simp: sublist_Cons_right)




section \<open>Edited variants\<close>

text \<open>
  Claim C6, evaluated on the source's own example. The list of patterns holds
  \<^verbatim>\<open>'-edited'\<close> before \<^verbatim>\<open>'_1-edited'\<close>, and every name that contains the longer marker
  contains the shorter one, so the shorter one is removed and \<^verbatim>\<open>_1\<close> stays in the name.
\<close>

theorem get_original_name_special_case:
  "get_original_name special_case_edited = Some ''IMG_20180804_134812_1.jpg''"
  by (simp add: get_original_name_def special_case_edited_def)

text \<open>
  Claim C7 as the code has it. The test lower-cases the name before it looks for the
  markers, so it holds exactly when the lower-cased name contains one of the four
  markers; since two of them contain \<^verbatim>\<open>-edited\<close>, that is when the lower-cased name
  contains \<^verbatim>\<open>-edited\<close> or \<^verbatim>\<open>_edited\<close>.
\<close>

theorem is_edited_photo_case_insensitive:
  "(is_edited_photo f \<longleftrightarrow>
      (\<exists>marker \<in> set [''-edited'', ''-effects-edited'', ''_edited'', ''_1-edited''].
         sublist marker (str_lower (name f))))
   \<and> (is_edited_photo f \<longleftrightarrow>
      sublist ''-edited'' (str_lower (name f)) \<or> sublist ''_edited'' (str_lower (name f)))"
proof -
  have a: "is_edited_photo f \<longleftrightarrow>
     (\<exists>marker \<in> set [''-edited'', ''-effects-edited'', ''_edited'', ''_1-edited''].
        sublist marker (str_lower (name f)))"
    by (simp add: is_edited_photo_def str_contains_sublist Let_def)
  have e1: "sublist ''-edited'' ''-effects-edited''"
    unfolding sublist_def by (rule exI [of _ "''-effects''"], rule exI [of _ "[]"]) simp
  have e2: "sublist ''-edited'' ''_1-edited''"
    unfolding sublist_def by (rule exI [of _ "''_1''"], rule exI [of _ "[]"]) simp
  have "sublist ''-effects-edited'' s \<Longrightarrow> sublist ''-edited'' s" for s
    using e1 sublist_order.order_trans by blast
  moreover have "sublist ''_1-edited'' s \<Longrightarrow> sublist ''-edited'' s" for s
    using e2 sublist_order.order_trans by blast
  ultimately have "is_edited_photo f \<longleftrightarrow>
     sublist ''-edited'' (str_lower (name f)) \<or> sublist ''_edited'' (str_lower (name f))"
    unfolding a by auto
  with a show ?thesis by blast
qed

theorem is_edited_photo_case_insensitive_witness:
  "is_edited_photo upper_case_edited
   \<and> sublist ''-edited'' (str_lower (name upper_case_edited))"
proof -
  have ed: "is_edited_photo upper_case_edited"
    by (simp add: is_edited_photo_def upper_case_edited_def str_lower_def lower_char_def)
  have "\<not> str_contains ''_edited'' (str_lower (name upper_case_edited))"
    by (simp add: upper_case_edited_def str_lower_def lower_char_def)
  then have "\<not> sublist ''_edited'' (str_lower (name upper_case_edited))"
    by (simp add: str_contains_sublist)
  with ed is_edited_photo_case_insensitive [of upper_case_edited]
  show ?thesis by blast
qed

theorem is_edited_photo_upper_case_counterexample:
  "is_edited_photo upper_case_edited
   \<and> \<not> list_ex (\<lambda>marker. str_contains marker (name upper_case_edited))
         [''-edited'', ''-effects-edited'', ''_edited'', ''_1-edited'']"
  by (simp add: is_edited_photo_def upper_case_edited_def str_lower_def lower_char_def)

section \<open>The example worlds\<close>



lemma empty_world_no_sidecar:
  "find_json_metadata empty_world f = None"
  "find_json_metadata world_batch_fails f = None"
  by (simp_all add: find_json_metadata_def sidecar_patterns_def empty_world_def
      world_batch_fails_def split: option.splits)



section \<open>What verification answers\<close>

lemma fst_check_restored:
  "fst (check_restored j e s) =
     (case date_check j e of Inl x \<Rightarrow> False
      | Inr d \<Rightarrow> (case gps_check j e of Inl x \<Rightarrow> False
         | Inr g \<Rightarrow> (case desc_check j e of Inl x \<Rightarrow> False | Inr c \<Rightarrow> d \<or> g \<or> c)))"
  by (simp add: check_restored_def Let_def split: sum.splits)

lemma fst_verify_indep:
  "fst (verify_file_processing w s f) = fst (verify_file_processing w s' f)"
  by (simp add: verify_file_processing_def Let_def fst_check_restored
      split: option.splits query_result.splits)

lemma verify_no_sidecar:
  "find_json_metadata w f = None \<Longrightarrow> \<not> fst (verify_file_processing w s f)"
  by (simp add: verify_file_processing_def)



lemma embedded_reads:
  "and_then (py_get (JObj ex) key JNull) (\<lambda>v. Inr (truthy v)) =
     Inr (spec_present (map_of ex key))"
  by (simp add: and_then_def spec_present_def split: option.splits)















section \<open>What the steps leave alone\<close>

lemma same_setup_refl [simp]: "same_setup s s"
  by (simp add: same_setup_def)

lemma same_setup_trans: "same_setup a b \<Longrightarrow> same_setup b c \<Longrightarrow> same_setup a c"
  by (simp add: same_setup_def)

lemma same_setup_steps [simp]:
  "same_setup s (emit e s)"
  "same_setup s (incr_json_matched s)"
  "same_setup s (incr_date_restored s)"
  "same_setup s (incr_gps_restored s)"
  "same_setup s (incr_extensions_fixed s)"
  "same_setup s (incr_live_photos_paired s)"
  "same_setup s (append_error msg s)"
  by (simp_all add: same_setup_def emit_def incr_json_matched_def incr_date_restored_def
      incr_gps_restored_def incr_extensions_fixed_def incr_live_photos_paired_def
      append_error_def)

lemma writes_steps [simp]:
  "writes (emit e s) = writes s @ (if modifies e then [e] else [])"
  "writes (incr_json_matched s) = writes s"
  "writes (incr_date_restored s) = writes s"
  "writes (incr_gps_restored s) = writes s"
  "writes (incr_extensions_fixed s) = writes s"
  "writes (incr_live_photos_paired s) = writes s"
  "writes (append_error msg s) = writes s"
  by (simp_all add: writes_def emit_def incr_json_matched_def incr_date_restored_def
      incr_gps_restored_def incr_extensions_fixed_def incr_live_photos_paired_def
      append_error_def)

lemma same_setup_step:
  "same_setup a b \<Longrightarrow> same_setup a (emit e b)"
  "same_setup a b \<Longrightarrow> same_setup a (incr_json_matched b)"
  "same_setup a b \<Longrightarrow> same_setup a (incr_date_restored b)"
  "same_setup a b \<Longrightarrow> same_setup a (incr_gps_restored b)"
  "same_setup a b \<Longrightarrow> same_setup a (incr_extensions_fixed b)"
  "same_setup a b \<Longrightarrow> same_setup a (incr_live_photos_paired b)"
  "same_setup a b \<Longrightarrow> same_setup a (append_error msg b)"
  by (erule same_setup_trans, simp)+

lemma check_restored_frame:
  "same_setup s (snd (check_restored j e s)) \<and> writes (snd (check_restored j e s)) = writes s"
  by (simp add: check_restored_def Let_def same_setup_step split: sum.splits)

lemma verify_frame:
  "same_setup s (snd (verify_file_processing w s f))
   \<and> writes (snd (verify_file_processing w s f)) = writes s"
proof -
  have "same_setup s (snd (check_restored j e (emit (QueryFields f 10) (incr_json_matched s))))
      \<and> writes (snd (check_restored j e (emit (QueryFields f 10) (incr_json_matched s)))) = writes s"
    for j e
    using check_restored_frame [of "emit (QueryFields f 10) (incr_json_matched s)" j e]
    by (auto intro: same_setup_trans [of s "emit (QueryFields f 10) (incr_json_matched s)"]
        simp: same_setup_step)
  then show ?thesis
    by (simp add: verify_file_processing_def Let_def same_setup_step
        split: option.splits query_result.splits)
qed

section \<open>The two loops over a batch\<close>

lemma verify_batch_result:
  "fst (verify_batch w fs (n, u, p) s) =
     (n + length (filter (\<lambda>f. fst (verify_file_processing w s0 f)) fs),
      u @ filter (\<lambda>f. find_json_metadata w f = None) fs,
      p @ filter (\<lambda>f. fst (verify_file_processing w s0 f)) fs)"
proof (induction fs arbitrary: n u p s)
  case Nil
  show ?case by simp
next
  case (Cons a fs)
  obtain b s1 where v: "verify_file_processing w s a = (b, s1)"
    by (cases "verify_file_processing w s a")
  then have b: "fst (verify_file_processing w s0 a) = b"
    using fst_verify_indep [of w s0 a s] by simp
  show ?case
  proof (cases b)
    case True
    with b have "find_json_metadata w a \<noteq> None"
      using verify_no_sidecar [of w a s0] by auto
    with True v b Cons.IH show ?thesis by simp
  next
    case False
    with v b Cons.IH show ?thesis
      by (cases "find_json_metadata w a") simp_all
  qed
qed

lemma verify_batch_frame:
  "same_setup s (snd (verify_batch w fs acc s))
   \<and> writes (snd (verify_batch w fs acc s)) = writes s"
proof (induction fs arbitrary: acc s)
  case Nil
  show ?case by simp
next
  case (Cons a fs)
  obtain n u p where acc: "acc = (n, u, p)"
    by (cases acc)
  obtain b s1 where v: "verify_file_processing w s a = (b, s1)"
    by (cases "verify_file_processing w s a")
  with verify_frame [of s w a] have s1: "same_setup s s1" "writes s1 = writes s"
    by simp_all
  have "same_setup s (snd (verify_batch w fs acc' s1))
      \<and> writes (snd (verify_batch w fs acc' s1)) = writes s" for acc'
    using Cons.IH [where acc = acc' and s = s1] s1 by (auto intro: same_setup_trans)
  with acc v show ?case
    by (cases b; cases "find_json_metadata w a") simp_all
qed

lemma individual_loop_result:
  "fst (individual_loop w fs (n, u, p) s) =
     (n + length (filter (individually_ok w s0) fs),
      u @ filter (\<lambda>f. find_json_metadata w f = None) fs,
      p @ filter (individually_ok w s0) fs)"
proof (induction fs arbitrary: n u p s)
  case Nil
  show ?case by simp
next
  case (Cons a fs)
  show ?case
  proof (cases "find_json_metadata w a")
    case None
    with Cons.IH show ?thesis
      by (simp add: individually_ok_def)
  next
    case (Some j)
    let ?s1 = "emit (WriteSingle a j 30) s"
    obtain b s2 where v: "verify_file_processing w ?s1 a = (b, s2)"
      by (cases "verify_file_processing w ?s1 a")
    then have b: "fst (verify_file_processing w s0 a) = b"
      using fst_verify_indep [of w s0 a ?s1] by simp
    show ?thesis
    proof (cases "run_single w a j")
      case (Completed rc)
      with Some v b Cons.IH show ?thesis
        by (cases b) (simp_all add: individually_ok_def Let_def)
    next
      case TimeoutExpired
      with Some Cons.IH show ?thesis
        by (simp add: individually_ok_def Let_def)
    next
      case RunRaised
      with Some Cons.IH show ?thesis
        by (simp add: individually_ok_def Let_def)
    qed
  qed
qed

lemma individual_loop_frame:
  "same_setup s (snd (individual_loop w fs acc s))
   \<and> writes (snd (individual_loop w fs acc s)) = writes s @ List.map_filter (single_write w) fs"
proof (induction fs arbitrary: acc s)
  case Nil
  show ?case by (simp add: List.map_filter_simps)
next
  case (Cons a fs)
  obtain n u p where acc: "acc = (n, u, p)"
    by (cases acc)
  show ?case
  proof (cases "find_json_metadata w a")
    case None
    with acc Cons.IH show ?thesis
      by (simp add: List.map_filter_simps single_write_def)
  next
    case (Some j)
    let ?s1 = "emit (WriteSingle a j 30) s"
    let ?tail = "List.map_filter (single_write w) fs"
    have s1: "same_setup s ?s1" "writes ?s1 = writes s @ [WriteSingle a j 30]"
      by simp_all
    obtain b s2 where v: "verify_file_processing w ?s1 a = (b, s2)"
      by (cases "verify_file_processing w ?s1 a")
    with verify_frame [of ?s1 w a] s1 have s2: "same_setup s s2"
        "writes s2 = writes s @ [WriteSingle a j 30]"
      by (auto intro: same_setup_trans [OF s1(1)])
    have step1: "same_setup s (snd (individual_loop w fs acc' ?s1))
        \<and> writes (snd (individual_loop w fs acc' ?s1)) = writes s @ WriteSingle a j 30 # ?tail"
      for acc'
      using Cons.IH [where acc = acc' and s = ?s1] s1(2) by (auto intro: same_setup_trans [OF s1(1)])
    have step2: "same_setup s (snd (individual_loop w fs acc' s2))
        \<and> writes (snd (individual_loop w fs acc' s2)) = writes s @ WriteSingle a j 30 # ?tail"
      for acc'
      using Cons.IH [where acc = acc' and s = s2] s2(2) by (auto intro: same_setup_trans [OF s2(1)])
    have mf: "List.map_filter (single_write w) (a # fs) = WriteSingle a j 30 # ?tail"
      using Some by (simp add: List.map_filter_simps single_write_def)
    show ?thesis
      unfolding mf
    proof (cases "run_single w a j")
      case (Completed rc)
      with Some acc v step1 step2 show
        "same_setup s (snd (individual_loop w (a # fs) acc s))
         \<and> writes (snd (individual_loop w (a # fs) acc s)) = writes s @ WriteSingle a j 30 # ?tail"
        by (cases b) (simp_all add: Let_def)
    next
      case TimeoutExpired
      with Some acc step1 show
        "same_setup s (snd (individual_loop w (a # fs) acc s))
         \<and> writes (snd (individual_loop w (a # fs) acc s)) = writes s @ WriteSingle a j 30 # ?tail"
        by (simp add: Let_def)
    next
      case RunRaised
      with Some acc step1 show
        "same_setup s (snd (individual_loop w (a # fs) acc s))
         \<and> writes (snd (individual_loop w (a # fs) acc s)) = writes s @ WriteSingle a j 30 # ?tail"
        by (simp add: Let_def)
    qed
  qed
qed

lemma process_files_individually_result:
  "fst (process_files_individually w s batch n) =
     (length (filter (individually_ok w s0) batch),
      filter (\<lambda>f. find_json_metadata w f = None) batch,
      filter (individually_ok w s0) batch)"
  using individual_loop_result [of w batch 0 "[]" "[]" s s0]
  by (auto simp: process_files_individually_def split: prod.splits)

lemma process_files_individually_frame:
  "same_setup s (snd (process_files_individually w s batch n))
   \<and> writes (snd (process_files_individually w s batch n)) =
       writes s @ List.map_filter (single_write w) batch"
  using individual_loop_frame [of s w batch "(0, [], [])"]
  by (auto simp: process_files_individually_def same_setup_step split: prod.splits)

lemma process_batch_failed:
  assumes "run_batch w batch \<noteq> Completed 0"
  shows "process_batch_with_verification w s batch n =
      process_files_individually w (emit (WriteBatch batch 300) s) batch n"
  using assms
  by (cases "run_batch w batch") (simp_all add: process_batch_with_verification_def Let_def)

lemma process_batch_result:
  "fst (process_batch_with_verification w s batch n) =
     (length (filter (counted w s0 batch) batch),
      filter (\<lambda>f. find_json_metadata w f = None) batch,
      filter (counted w s0 batch) batch)"
proof (cases "run_batch w batch = Completed 0")
  case True
  then have "counted w s0 batch = (\<lambda>f. fst (verify_file_processing w s0 f))"
    by (simp add: counted_def fun_eq_iff)
  with True show ?thesis
    using verify_batch_result [of w batch 0 "[]" "[]" "emit (WriteBatch batch 300) s" s0]
    by (simp add: process_batch_with_verification_def)
next
  case False
  then have "process_batch_with_verification w s batch n =
      process_files_individually w (emit (WriteBatch batch 300) s) batch n"
    by (rule process_batch_failed)
  moreover from False have "counted w s0 batch = individually_ok w s0"
    by (simp add: counted_def fun_eq_iff)
  ultimately show ?thesis
    using process_files_individually_result [of w "emit (WriteBatch batch 300) s" batch n s0]
    by simp
qed

lemma process_batch_setup:
  "same_setup s (snd (process_batch_with_verification w s batch n))"
proof -
  let ?s1 = "emit (WriteBatch batch 300) s"
  have a: "same_setup s (snd (verify_batch w batch (0, [], []) ?s1))"
    using verify_batch_frame [of ?s1 w batch "(0, [], [])"]
    by (auto intro: same_setup_trans [of s ?s1])
  have b: "same_setup s (snd (process_files_individually w ?s1 batch n))"
    using process_files_individually_frame [of ?s1 w batch n]
    by (auto intro: same_setup_trans [of s ?s1])
  from a b show ?thesis
    by (simp add: process_batch_with_verification_def Let_def split: run_result.splits)
qed

lemma run_batches_wet:
  assumes "\<not> dry_run s"
  shows "fst (run_batches w files bs ns (n, u, p) s) =
       Inr (n + sum_list (map (\<lambda>b. length (filter (counted w s0 b) b))
                  (map (batch_slice files bs) ns)),
            u @ concat (map (filter (\<lambda>f. find_json_metadata w f = None))
                  (map (batch_slice files bs) ns)),
            p @ concat (map (\<lambda>b. filter (counted w s0 b) b) (map (batch_slice files bs) ns)))
     \<and> same_setup s (snd (run_batches w files bs ns (n, u, p) s))"
  using assms
proof (induction ns arbitrary: n u p s)
  case Nil
  show ?case by simp
next
  case (Cons i ns)
  let ?b = "batch_slice files bs i"
  obtain r s1 where step: "process_batch_with_verification w s ?b (i + 1) = (r, s1)"
    by (cases "process_batch_with_verification w s ?b (i + 1)")
  with process_batch_result [of w s ?b "i + 1" s0]
  have r: "r = (length (filter (counted w s0 ?b) ?b),
      filter (\<lambda>f. find_json_metadata w f = None) ?b, filter (counted w s0 ?b) ?b)"
    by simp
  from step process_batch_setup [of s w ?b "i + 1"] have s1: "same_setup s s1"
    by simp
  with Cons.prems have wet: "\<not> dry_run s1"
    by (simp add: same_setup_def)
  note ih = Cons.IH [OF wet]
  show ?case
    using Cons.prems step r ih s1
    by (auto simp: Let_def add.assoc intro: same_setup_trans)
qed

lemma copy_frames [simp]:
  "same_setup s (copy_processed_files_to_output s fs)"
  "same_setup s (handle_unmapped_files s fs)"
  by (simp_all add: copy_processed_files_to_output_def handle_unmapped_files_def)


section \<open>The trace of a run\<close>

text \<open>
  In a run that is not a dry run, what modifies anything is, batch after batch, the
  batch run with its individual runs, and then the copy of all processed lists to the
  output tree and of all unmapped lists to the unmapped tree. A file that is in neither
  list of its batch is in neither copy.
\<close>

lemma process_batch_writes:
  "writes (snd (process_batch_with_verification w s batch n)) = writes s @ batch_writes w batch"
proof (cases "run_batch w batch = Completed 0")
  case True
  then show ?thesis
    using verify_batch_frame [of "emit (WriteBatch batch 300) s" w batch "(0, [], [])"]
    by (simp add: process_batch_with_verification_def batch_writes_def)
next
  case False
  then show ?thesis
    using process_files_individually_frame [of "emit (WriteBatch batch 300) s" w batch n]
    by (simp add: process_batch_failed batch_writes_def)
qed

lemma run_batches_wet_writes:
  assumes "\<not> dry_run s"
  shows "writes (snd (run_batches w files bs ns acc s)) =
     writes s @ concat (map (batch_writes w) (map (batch_slice files bs) ns))"
  using assms
proof (induction ns arbitrary: acc s)
  case Nil
  show ?case by simp
next
  case (Cons i ns)
  obtain n u p where acc: "acc = (n, u, p)"
    by (cases acc)
  let ?b = "batch_slice files bs i"
  obtain r s1 where step: "process_batch_with_verification w s ?b (i + 1) = (r, s1)"
    by (cases "process_batch_with_verification w s ?b (i + 1)")
  obtain n1 u1 p1 where r: "r = (n1, u1, p1)"
    by (cases r)
  from step process_batch_setup [of s w ?b "i + 1"] Cons.prems have wet: "\<not> dry_run s1"
    by (simp add: same_setup_def)
  from step process_batch_writes [of w s ?b "i + 1"]
  have w1: "writes s1 = writes s @ batch_writes w ?b"
    by simp
  from Cons.IH [OF wet, of "(n + n1, u @ u1, p @ p1)"] w1 acc step r Cons.prems
  show ?case
    by (simp add: Let_def)
qed

lemma process_with_exiftool_writes:
  assumes "\<not> dry_run s" and "0 < bs"
  shows "writes (snd (process_with_exiftool w s files bs)) =
     writes s
       @ concat (map (batch_writes w) (batches_of files bs))
       @ copy_events
           (concat (map (\<lambda>b. filter (counted w s b) b) (batches_of files bs)))
           (concat (map (filter (\<lambda>f. find_json_metadata w f = None)) (batches_of files bs)))"
proof -
  let ?ns = "[0..<(length files + bs - 1) div bs]"
  let ?P = "concat (map (\<lambda>b. filter (counted w s b) b) (batches_of files bs))"
  let ?U = "concat (map (filter (\<lambda>f. find_json_metadata w f = None)) (batches_of files bs))"
  obtain r s1 where run: "run_batches w files bs ?ns (0, [], []) s = (r, s1)"
    by (cases "run_batches w files bs ?ns (0, [], []) s")
  from run_batches_wet [OF assms(1), of w files bs ?ns 0 "[]" "[]" s] run
  have r: "r = Inr (verified_count w s files bs, ?U, ?P)" and s1: "same_setup s s1"
    by (simp_all add: verified_count_def batches_of_def)
  from s1 assms(1) have wet: "\<not> dry_run s1"
    by (simp add: same_setup_def)
  from run run_batches_wet_writes [OF assms(1), of w files bs ?ns "(0, [], [])"]
  have w1: "writes s1 = writes s @ concat (map (batch_writes w) (batches_of files bs))"
    by (simp add: batches_of_def)
  have stats_irrelevant: "writes (x\<lparr>stats := y\<rparr>) = writes x" for x y
    by (simp add: writes_def)
  from run r assms(2) wet w1 show ?thesis
    by (simp add: process_with_exiftool_def Let_def copy_events_def stats_irrelevant
        copy_processed_files_to_output_def handle_unmapped_files_def same_setup_def emit_def
        writes_def)
qed

section \<open>The batch run succeeded\<close>




section \<open>The batch run failed\<close>




section \<open>Dry runs\<close>

lemma detect_frame:
  "same_setup s (snd (detect_file_type_mismatch w s f))
   \<and> writes (snd (detect_file_type_mismatch w s f)) = writes s"
  by (simp add: detect_file_type_mismatch_def Let_def split: file_type_result.splits)

lemma fix_loop_frame:
  "same_setup s (snd (fix_file_extensions_loop w fs acc s))
   \<and> (dry_run s \<longrightarrow> writes (snd (fix_file_extensions_loop w fs acc s)) = writes s)"
proof (induction fs arbitrary: acc s)
  case Nil
  show ?case by simp
next
  case (Cons a fs)
  obtain r s1 where d: "detect_file_type_mismatch w s a = (r, s1)"
    by (cases "detect_file_type_mismatch w s a")
  with detect_frame [of s w a] have s1: "same_setup s s1" "writes s1 = writes s"
    by simp_all
  then have dry: "dry_run s1 = dry_run s"
    by (simp add: same_setup_def)
  have next_plain: "same_setup s (snd (fix_file_extensions_loop w fs acc' s1))
      \<and> (dry_run s \<longrightarrow> writes (snd (fix_file_extensions_loop w fs acc' s1)) = writes s)"
    for acc'
    using Cons.IH [where acc = acc' and s = s1] s1(2) dry
    by (auto intro: same_setup_trans [OF s1(1)])
  let ?s3 = "\<lambda>p. incr_extensions_fixed (if \<not> dry_run s1 then emit (MoveFile a p) s1 else s1)"
  have s3: "same_setup s (?s3 p)" "dry_run s \<longrightarrow> writes (?s3 p) = writes s" for p
    using s1 dry by (auto intro: same_setup_step)
  have next_fixed: "same_setup s (snd (fix_file_extensions_loop w fs acc' (?s3 p)))
      \<and> (dry_run s \<longrightarrow> writes (snd (fix_file_extensions_loop w fs acc' (?s3 p))) = writes s)"
    for acc' p
    using Cons.IH [where acc = acc' and s = "?s3 p"] s3 [of p]
    by (auto intro: same_setup_trans [OF s3(1)] simp: same_setup_def)
  show ?case
  proof (cases r)
    case (Inl e)
    with d s1 show ?thesis by simp
  next
    case (Inr t)
    show ?thesis
    proof (cases t)
      case None
      with Inr d next_plain show ?thesis by simp
    next
      case (Some correct_type)
      show ?thesis
      proof (cases "correct_type = []")
        case True
        with Some Inr d next_plain show ?thesis by simp
      next
        case False
        let ?np = "with_suffix a (''.'' @ correct_type)"
        from False Some Inr d have eq: "fix_file_extensions_loop w (a # fs) acc s =
            fix_file_extensions_loop w fs (acc @ [?np]) (?s3 ?np)"
          by (simp add: Let_def)
        show ?thesis
          unfolding eq by (rule next_fixed)
      qed
    qed
  qed
qed

lemma identify_frame:
  "same_setup s (identify_live_photos w s fs) \<and> writes (identify_live_photos w s fs) = writes s"
proof (induction fs arbitrary: s)
  case Nil
  show ?case by simp
next
  case (Cons a fs)
  let ?s1 = "if has_live_video w a then incr_live_photos_paired s else s"
  have "same_setup s ?s1" "writes ?s1 = writes s"
    by simp_all
  with Cons.IH [of ?s1] show ?case
    by (auto intro: same_setup_trans [of s ?s1])
qed

lemma simulate_file_frame:
  "same_setup s (snd (simulate_file w f pair s))
   \<and> writes (snd (simulate_file w f pair s)) = writes s"
  by (simp add: simulate_file_def Let_def same_setup_step split: option.splits sum.splits)

lemma simulate_batch_frame:
  "same_setup s (snd (simulate_batch w fs pair s))
   \<and> writes (snd (simulate_batch w fs pair s)) = writes s"
proof (induction fs arbitrary: pair s)
  case Nil
  show ?case by simp
next
  case (Cons a fs)
  obtain r s1 where st: "simulate_file w a pair s = (r, s1)"
    by (cases "simulate_file w a pair s")
  with simulate_file_frame [of s w a pair] have s1: "same_setup s s1" "writes s1 = writes s"
    by simp_all
  have "same_setup s (snd (simulate_batch w fs pair' s1))
      \<and> writes (snd (simulate_batch w fs pair' s1)) = writes s" for pair'
    using Cons.IH [where pair = pair' and s = s1] s1(2)
    by (auto intro: same_setup_trans [OF s1(1)])
  with st s1 show ?case
    by (cases r) simp_all
qed

lemma run_batches_dry:
  assumes "dry_run s"
  shows "same_setup s (snd (run_batches w files bs ns acc s))
     \<and> writes (snd (run_batches w files bs ns acc s)) = writes s"
  using assms
proof (induction ns arbitrary: acc s)
  case Nil
  show ?case by simp
next
  case (Cons i ns)
  obtain n u p where acc: "acc = (n, u, p)"
    by (cases acc)
  let ?b = "batch_slice files bs i"
  obtain r s1 where st: "simulate_batch w ?b (u, p) s = (r, s1)"
    by (cases "simulate_batch w ?b (u, p) s")
  with simulate_batch_frame [of s w ?b "(u, p)"] have s1: "same_setup s s1" "writes s1 = writes s"
    by simp_all
  with Cons.prems have dry1: "dry_run s1"
    by (simp add: same_setup_def)
  have "same_setup s (snd (run_batches w files bs ns acc' s1))
      \<and> writes (snd (run_batches w files bs ns acc' s1)) = writes s" for acc'
    using Cons.IH [OF dry1, where acc = acc'] s1(2)
    by (auto intro: same_setup_trans [OF s1(1)])
  with acc st s1 Cons.prems show ?case
    by (cases r) (auto simp: Let_def)
qed

lemma process_with_exiftool_dry:
  assumes "dry_run s"
  shows "same_setup s (snd (process_with_exiftool w s files bs))
     \<and> writes (snd (process_with_exiftool w s files bs)) = writes s"
proof (cases "bs = 0")
  case True
  then show ?thesis by (simp add: process_with_exiftool_def)
next
  case False
  let ?ns = "[0..<(length files + bs - 1) div bs]"
  obtain r s1 where run: "run_batches w files bs ?ns (0, [], []) s = (r, s1)"
    by (cases "run_batches w files bs ?ns (0, [], []) s")
  with run_batches_dry [OF assms, of w files bs ?ns "(0, [], [])"]
  have s1: "same_setup s s1" "writes s1 = writes s"
    by simp_all
  with assms have dry1: "dry_run s1"
    by (simp add: same_setup_def)
  show ?thesis
  proof (cases r)
    case (Inl e)
    with run False s1 show ?thesis
      by (simp add: process_with_exiftool_def)
  next
    case (Inr acc)
    obtain n u p where acc: "acc = (n, u, p)"
      by (cases acc)
    have "same_setup s (s1\<lparr>stats := (stats s1)\<lparr>processed_files := n\<rparr>\<rparr>)"
      using s1(1) by (simp add: same_setup_def)
    moreover have "writes (s1\<lparr>stats := (stats s1)\<lparr>processed_files := n\<rparr>\<rparr>) = writes s"
      using s1(2) by (simp add: writes_def)
    ultimately show ?thesis
      using run False Inr acc dry1
      by (simp add: process_with_exiftool_def Let_def)
  qed
qed


lemma generate_report_frame:
  "same_setup s (snd (generate_report s))
   \<and> (dry_run s \<longrightarrow> writes (snd (generate_report s)) = writes s)"
  by (simp add: generate_report_def Let_def)

lemma fix_file_extensions_frame:
  "same_setup s (snd (fix_file_extensions w s fs))
   \<and> (dry_run s \<longrightarrow> writes (snd (fix_file_extensions w s fs)) = writes s)"
  unfolding fix_file_extensions_def by (rule fix_loop_frame)

lemma process_media_files_dry:
  assumes "dry_run s"
  shows "writes (snd (process_media_files w s files)) = writes s"
proof -
  let ?s1 = "s\<lparr>stats := (stats s)\<lparr>total_files := length files\<rparr>\<rparr>"
  have s1: "dry_run ?s1" "writes ?s1 = writes s"
    using assms by (simp_all add: writes_def)
  obtain r s2 where fx: "fix_file_extensions w ?s1 files = (r, s2)"
    by (cases "fix_file_extensions w ?s1 files")
  with fix_file_extensions_frame [of ?s1 w files] s1
  have s2: "dry_run s2" "writes s2 = writes s"
    by (simp_all add: same_setup_def)
  show ?thesis
  proof (cases r)
    case (Inl e)
    with fx s2 show ?thesis
      by (simp add: process_media_files_def)
  next
    case (Inr corrected_files)
    let ?s3 = "identify_live_photos w s2 corrected_files"
    from identify_frame [of s2 w corrected_files] s2
    have s3: "dry_run ?s3" "writes ?s3 = writes s"
      by (simp_all add: same_setup_def)
    obtain r4 s4 where run: "process_with_exiftool w ?s3 corrected_files 50 = (r4, s4)"
      by (cases "process_with_exiftool w ?s3 corrected_files 50")
    with process_with_exiftool_dry [OF s3(1), of w corrected_files 50] s3
    have s4: "dry_run s4" "writes s4 = writes s"
      by (simp_all add: same_setup_def)
    with generate_report_frame [of s4]
    have s5: "writes (snd (generate_report s4)) = writes s"
      by simp
    from fx Inr run s4 s5 show ?thesis
      by (cases r4) (simp_all add: process_media_files_def Let_def)
  qed
qed

text \<open>
  Claim C10. With \<^verbatim>\<open>dry_run\<close> set, extension fixing, the metadata run, the report and
  the pipeline made of them add nothing that modifies anything to the trace: no rename,
  no writing tool run on a batch or on a single file, no copy to the output or unmapped
  tree, no report file. What they add are read-only queries, and they change counters.
\<close>

theorem dry_run_modifies_nothing:
  assumes "dry_run self"
  shows "writes (snd (fix_file_extensions w self media_files)) = writes self
     \<and> writes (snd (process_with_exiftool w self media_files batch_size)) = writes self
     \<and> writes (snd (generate_report self)) = writes self
     \<and> writes (snd (process_media_files w self media_files)) = writes self"
  using assms fix_file_extensions_frame [of self w media_files]
    process_with_exiftool_dry [OF assms, of w media_files batch_size]
    generate_report_frame [of self] process_media_files_dry [OF assms, of w media_files]
  by simp

text \<open>
  A dry run over a \<^verbatim>\<open>.jpg\<close> file that is a PNG: the corrected path is returned and
  nothing is renamed.
\<close>

theorem dry_run_modifies_nothing_witness:
  "dry_run (new_processor True)
   \<and> fst (fix_file_extensions world_wrong_extension (new_processor True) [photo]) =
       Inr [photo\<lparr>name := ''photo.png''\<rparr>]
   \<and> writes (snd (fix_file_extensions world_wrong_extension (new_processor True) [photo])) = []
   \<and> writes (snd (process_media_files world_wrong_extension (new_processor True) [photo])) = []"
proof -
  have dry: "dry_run (new_processor True)"
    by (simp add: new_processor_def)
  have w0: "writes (new_processor True) = []"
    by (simp add: writes_def new_processor_def)
  have suffix: "path_suffix photo = ''.jpg''" "path_stem photo = ''photo''"
    by (simp_all add: path_suffix_def path_stem_def photo_def)
  have fixed: "fst (fix_file_extensions world_wrong_extension (new_processor True) [photo]) =
       Inr [photo\<lparr>name := ''photo.png''\<rparr>]"
    by (simp add: fix_file_extensions_def detect_file_type_mismatch_def
        world_wrong_extension_def and_then_def str_upper_def upper_char_def str_lower_def
        lower_char_def suffix mismatches_def with_suffix_def dry Let_def)
  from dry_run_modifies_nothing [OF dry, of world_wrong_extension "[photo]" 50] dry w0 fixed
  show ?thesis by simp
qed

section \<open>The processed-files counter and the report\<close>






section \<open>Files without a sidecar\<close>

text \<open>
  Claim C8, evaluated on the example of the specification. A file named
  \<^verbatim>\<open>IMG_20210619_125530.jpg\<close> with no sidecar: the lookup finds nothing, and both the
  individual pass and the pass after a successful batch run put the file on the unmapped
  list. No step of the processor reads a date out of a file name.
\<close>

theorem dated_name_without_sidecar_is_unmapped:
  "find_json_metadata empty_world dated_photo = None
   \<and> fst (process_files_individually empty_world (new_processor False) [dated_photo] 1) =
       (0, [dated_photo], [])
   \<and> fst (process_batch_with_verification empty_world (new_processor False) [dated_photo] 1) =
       (0, [dated_photo], [])"
proof -
  have ok: "run_batch empty_world fs = Completed 0" for fs
    by (simp add: empty_world_def)
  show ?thesis
    by (simp add: process_files_individually_def process_batch_with_verification_def ok
        verify_file_processing_def empty_world_no_sidecar)
qed

section \<open>Timestamp accuracy\<close>

text \<open>
  Whatever the sidecar and the file hold, \<^verbatim>\<open>verify_timestamp_accuracy\<close> answers \<open>False\<close>
  and records no issue.
\<close>

lemma verify_timestamp_accuracy_never_true:
  "verify_timestamp_accuracy lib json_data exif_data file_name issues = (False, issues)"
proof (cases "accuracy_try_body lib json_data exif_data file_name")
  case (Inl e)
  then show ?thesis
    by (simp add: verify_timestamp_accuracy_def)
next
  case (Inr r)
  then have "r = (False, None)"
    by (auto simp: accuracy_try_body_def and_then_def datetime_timezone_utc_def
        split: sum.splits if_splits)
  with Inr show ?thesis
    by (simp add: verify_timestamp_accuracy_def)
qed

text \<open>
  Claim C9, evaluated where the embedded date is exactly the sidecar's timestamp read as
  UTC: both values parse, their difference is 0, and the answer is \<open>False\<close>, because
  \<^verbatim>\<open>datetime.timezone.utc\<close> raises before any difference is computed.
\<close>

theorem verify_timestamp_accuracy_exact_match:
  "py_int (JStr ''1693584000'') = Inr 1693584000
   \<and> parse_embedded utc_lib (JStr ''2023:09:01 16:00:00'') = Inr 1693584000
   \<and> verify_timestamp_accuracy utc_lib sample_metadata restored_fields ''photo.jpg'' [] =
       (False, [])"
  by (simp add: verify_timestamp_accuracy_def accuracy_try_body_def and_then_def
      datetime_timezone_utc_def sample_metadata_def restored_fields_def int_of_string_def
      digit_value_def parse_embedded_def utc_lib_def)

end
